theory Spec2Isabelle
  imports Main
begin

section \<open>Strings\<close>

text \<open>
  A Python \<open>str\<close> is modelled as a \<open>string\<close>; a character stands for the code point
  of the same number, so the model covers the code points below 256.
\<close>

definition is_space :: "char \<Rightarrow> bool" where
  \<comment> \<open>the characters \<open>str.strip()\<close> removes: those with \<open>isspace()\<close> true\<close>
  "is_space c =
     (let n = (of_char c :: nat)
      in (9 \<le> n \<and> n \<le> 13) \<or> (28 \<le> n \<and> n \<le> 32) \<or> n = 133 \<or> n = 160)"

definition strip :: "string \<Rightarrow> string" where
  "strip s = rev (dropWhile is_space (rev (dropWhile is_space s)))"

fun find_sub :: "string \<Rightarrow> string \<Rightarrow> nat option" where
  \<comment> \<open>\<open>s.find(pat)\<close>: the index of the first occurrence of \<open>pat\<close> in \<open>s\<close>\<close>
  "find_sub pat [] = (if pat = [] then Some 0 else None)"
| "find_sub pat (c # cs) =
     (if take (length pat) (c # cs) = pat then Some 0
      else map_option Suc (find_sub pat cs))"

definition after_last :: "char \<Rightarrow> string \<Rightarrow> string" where
  \<comment> \<open>\<open>s.split(c)[-1]\<close>: what follows the last \<open>c\<close>, all of \<open>s\<close> when there is none\<close>
  "after_last c s = rev (takeWhile (\<lambda>x. x \<noteq> c) (rev s))"

definition cdata_search :: "string \<Rightarrow> string option" where
  \<comment> \<open>group 1 of \<open>re.search(r'<!\[CDATA\[(.*?)\]\]>', text, re.DOTALL)\<close>: the text
      between the first opening marker and the first closing marker after it\<close>
  "cdata_search txt =
     (case find_sub ''<![CDATA['' txt of
        None \<Rightarrow> None
      | Some i \<Rightarrow>
          (let rest = drop (i + 9) txt
           in case find_sub '']]>'' rest of
                None \<Rightarrow> None
              | Some j \<Rightarrow> Some (take j rest)))"

definition extract_cdata :: "string option \<Rightarrow> string option" where
  "extract_cdata t =
     (case t of
        None \<Rightarrow> None
      | Some txt \<Rightarrow>
          if txt = [] then None
          else (case cdata_search txt of
                  Some g \<Rightarrow> Some (strip g)
                | None \<Rightarrow> Some (strip txt)))"

section \<open>The parsed document\<close>

text \<open>
  An \<open>xml.etree\<close> element: its tag, its attributes, the text before its first child
  (\<open>None\<close> when there is none) and its children in document order.
\<close>

datatype element =
  Element (tag: string) (attrib: "(string \<times> string) list") (node_text: "string option")
    (children: "element list")

definition attrib_get :: "element \<Rightarrow> string \<Rightarrow> string \<Rightarrow> string" where
  "attrib_get e k d = (case map_of (attrib e) k of None \<Rightarrow> d | Some v \<Rightarrow> v)"

fun iter :: "element \<Rightarrow> element list" where
  \<comment> \<open>\<open>Element.iter()\<close>: the element and its descendants, in document order\<close>
  "iter (Element t a x cs) = Element t a x cs # concat (map iter cs)"

definition descendants :: "element \<Rightarrow> element list" where
  "descendants e = concat (map iter (children e))"

definition first :: "'a list \<Rightarrow> 'a option" where
  "first xs = (case xs of [] \<Rightarrow> None | x # _ \<Rightarrow> Some x)"

definition child_named :: "string \<Rightarrow> element \<Rightarrow> element list" where
  "child_named n e = filter (\<lambda>c. tag c = n) (children e)"

definition findall_desc :: "element \<Rightarrow> string \<Rightarrow> element list" where
  \<comment> \<open>\<open>e.findall(".//n")\<close>\<close>
  "findall_desc e n = filter (\<lambda>d. tag d = n) (descendants e)"

definition find_desc :: "element \<Rightarrow> string \<Rightarrow> element option" where
  \<comment> \<open>\<open>e.find(".//n")\<close>\<close>
  "find_desc e n = first (findall_desc e n)"

definition find_desc_path :: "element \<Rightarrow> string \<Rightarrow> string \<Rightarrow> element option" where
  \<comment> \<open>\<open>e.find(".//n/m")\<close>\<close>
  "find_desc_path e n m = first (concat (map (child_named m) (findall_desc e n)))"

definition find_child :: "element \<Rightarrow> string \<Rightarrow> element option" where
  \<comment> \<open>\<open>e.find("n")\<close>\<close>
  "find_child e n = first (child_named n e)"

definition find_child_path :: "element \<Rightarrow> string \<Rightarrow> string \<Rightarrow> element option" where
  \<comment> \<open>\<open>e.find("n/m")\<close>\<close>
  "find_child_path e n m = first (concat (map (child_named m) (child_named n e)))"

section \<open>Segment extraction\<close>

type_synonym segment = "string \<times> string"

text \<open>
  \<open>extract_twincat_code\<close> repeats one block for every candidate node:
  \<^verbatim>\<open>if node is not None and node.text:
    content = extract_cdata(node.text)
    if content:
        code_segments.append((label, content))\<close>
  \<open>append_segment\<close> is that block, with the list passed in and returned.
\<close>

definition append_segment :: "string \<Rightarrow> element option \<Rightarrow> segment list \<Rightarrow> segment list" where
  "append_segment label node code_segments =
     (case node of
        None \<Rightarrow> code_segments
      | Some e \<Rightarrow>
          (case node_text e of
             None \<Rightarrow> code_segments
           | Some t \<Rightarrow>
               if t = [] then code_segments
               else (case extract_cdata (Some t) of
                       None \<Rightarrow> code_segments
                     | Some content \<Rightarrow>
                         if content = [] then code_segments
                         else code_segments @ [(label, content)])))"

fun methods_loop :: "element list \<Rightarrow> segment list \<Rightarrow> segment list" where
  "methods_loop [] code_segments = code_segments"
| "methods_loop (method # methods) code_segments =
     (let method_name = attrib_get method ''Name'' ''Unknown'';
          method_decl = find_child method ''Declaration'';
          method_impl = find_child_path method ''Implementation'' ''ST'';
          s1 = append_segment (''Method '' @ method_name @ '' Declaration'') method_decl
                 code_segments;
          s2 = append_segment (''Method '' @ method_name @ '' Implementation'') method_impl s1
      in methods_loop methods s2)"

definition accessor :: "string \<Rightarrow> string \<Rightarrow> element option \<Rightarrow> segment list \<Rightarrow> segment list" where
  \<comment> \<open>the \<open>if get_method is not None:\<close> block, and the same block for \<open>set_method\<close>\<close>
  "accessor prop_name kind acc code_segments =
     (case acc of
        None \<Rightarrow> code_segments
      | Some a \<Rightarrow>
          (let decl = find_child a ''Declaration'';
               impl = find_child_path a ''Implementation'' ''ST'';
               s1 = append_segment (''Property '' @ prop_name @ '' '' @ kind @ '' Declaration'')
                      decl code_segments
           in append_segment (''Property '' @ prop_name @ '' '' @ kind @ '' Implementation'')
                impl s1))"

fun properties_loop :: "element list \<Rightarrow> segment list \<Rightarrow> segment list" where
  "properties_loop [] code_segments = code_segments"
| "properties_loop (prop # properties) code_segments =
     (let prop_name = attrib_get prop ''Name'' ''Unknown'';
          prop_decl = find_child prop ''Declaration'';
          s1 = append_segment (''Property '' @ prop_name @ '' Declaration'') prop_decl
                 code_segments;
          get_method = find_child prop ''Get'';
          set_method = find_child prop ''Set'';
          s2 = accessor prop_name ''Get'' get_method s1;
          s3 = accessor prop_name ''Set'' set_method s2
      in properties_loop properties s3)"

definition collect_segments :: "element \<Rightarrow> segment list" where
  \<comment> \<open>the part of \<open>extract_twincat_code\<close> that fills \<open>code_segments\<close>\<close>
  "collect_segments root =
     (let s0 = [];
          s1 = append_segment ''Declaration'' (find_desc root ''Declaration'') s0;
          s2 = append_segment ''Implementation''
                 (find_desc_path root ''Implementation'' ''ST'') s1;
          s3 = methods_loop (findall_desc root ''Method'') s2
      in properties_loop (findall_desc root ''Property'') s3)"

definition derive_title :: "string \<Rightarrow> element \<Rightarrow> string" where
  "derive_title file_path root =
     (let obj_type = after_last (CHR ''}'') (tag root)
      in if obj_type = ''POU'' then
           obj_type @ '': '' @ attrib_get root ''Name'' ''Unknown'' @ '' ''
             @ attrib_get root ''SpecialFunc'' ''''
         else if obj_type = ''Itf'' then ''Interface: '' @ attrib_get root ''Name'' ''Unknown''
         else if obj_type = ''DUT'' then ''DUT: '' @ attrib_get root ''Name'' ''Unknown''
         else if obj_type = ''GVL'' then ''GVL: '' @ attrib_get root ''Name'' ''Unknown''
         else after_last (CHR ''/'') file_path)"

text \<open>
  \<open>ET.parse\<close> is the only call inside the \<open>try\<close> that can raise. Its outcome is an
  argument: \<open>Inl cause\<close> when it raises, \<open>Inr root\<close> otherwise. The result is the
  line printed, if any, and the pair returned (\<open>None\<close> for \<open>(None, None)\<close>).
\<close>

definition extract_twincat_code ::
  "string \<Rightarrow> string + element \<Rightarrow> string list \<times> (string \<times> segment list) option" where
  "extract_twincat_code file_path parsed =
     (case parsed of
        Inl e \<Rightarrow> ([''Error processing '' @ file_path @ '': '' @ e], None)
      | Inr root \<Rightarrow> ([], Some (derive_title file_path root, collect_segments root)))"

section \<open>The extraction loops in closed form\<close>

text \<open>
  What the blocks of \<open>extract_twincat_code\<close> examine, read off the code: the content
  that \<open>append_segment\<close> would append for a node (empty when it appends nothing), and
  the labelled contents in the order in which the code visits the nodes.
\<close>

definition payload :: "element option \<Rightarrow> string" where
  "payload node =
     (case node of
        None \<Rightarrow> []
      | Some e \<Rightarrow> (case extract_cdata (node_text e) of None \<Rightarrow> [] | Some c \<Rightarrow> c))"

definition method_candidates :: "element \<Rightarrow> segment list" where
  "method_candidates m =
     (let n = attrib_get m ''Name'' ''Unknown''
      in [(''Method '' @ n @ '' Declaration'', payload (find_child m ''Declaration'')),
          (''Method '' @ n @ '' Implementation'',
           payload (find_child_path m ''Implementation'' ''ST''))])"

definition accessor_candidates :: "string \<Rightarrow> string \<Rightarrow> element option \<Rightarrow> segment list" where
  "accessor_candidates n kind acc =
     (case acc of
        None \<Rightarrow> []
      | Some a \<Rightarrow>
          [(''Property '' @ n @ '' '' @ kind @ '' Declaration'',
            payload (find_child a ''Declaration'')),
           (''Property '' @ n @ '' '' @ kind @ '' Implementation'',
            payload (find_child_path a ''Implementation'' ''ST''))])"

definition property_candidates :: "element \<Rightarrow> segment list" where
  "property_candidates p =
     (let n = attrib_get p ''Name'' ''Unknown''
      in (''Property '' @ n @ '' Declaration'', payload (find_child p ''Declaration''))
           # accessor_candidates n ''Get'' (find_child p ''Get'')
           @ accessor_candidates n ''Set'' (find_child p ''Set''))"

definition loop_candidates :: "element \<Rightarrow> segment list" where
  "loop_candidates root =
     [(''Declaration'', payload (find_desc root ''Declaration'')),
      (''Implementation'', payload (find_desc_path root ''Implementation'' ''ST''))]
     @ concat (map method_candidates (findall_desc root ''Method''))
     @ concat (map property_candidates (findall_desc root ''Property''))"

section \<open>Keyword highlighting\<close>

text \<open>
  The pattern \<open>rf'\b{keyword}\b'\<close> is compiled from the keyword's characters. Of the
  characters that occur in the keyword list only \<open>^\<close> is special to \<open>re\<close>: it is the
  start-of-string assertion. Every other character of the list stands for itself.
\<close>

datatype atom = Lit char | Bol | WordB

definition keyword_pattern :: "string \<Rightarrow> atom list" where
  "keyword_pattern keyword =
     WordB # map (\<lambda>c. if c = CHR ''^'' then Bol else Lit c) keyword @ [WordB]"

definition is_word :: "char \<Rightarrow> bool" where
  \<comment> \<open>\<open>\w\<close> of a \<open>str\<close> pattern: alphanumeric in Unicode, or the underscore\<close>
  "is_word c =
     (let n = (of_char c :: nat)
      in (48 \<le> n \<and> n \<le> 57) \<or> (65 \<le> n \<and> n \<le> 90) \<or> n = 95 \<or> (97 \<le> n \<and> n \<le> 122)
         \<or> n = 170 \<or> n = 178 \<or> n = 179 \<or> n = 181 \<or> n = 185 \<or> n = 186
         \<or> (188 \<le> n \<and> n \<le> 190) \<or> (192 \<le> n \<and> n \<le> 214) \<or> (216 \<le> n \<and> n \<le> 246)
         \<or> 248 \<le> n)"

definition word_opt :: "char option \<Rightarrow> bool" where
  \<comment> \<open>outside the string there is no word character\<close>
  "word_opt c = (case c of None \<Rightarrow> False | Some x \<Rightarrow> is_word x)"

fun match_atoms :: "atom list \<Rightarrow> char option \<Rightarrow> string \<Rightarrow> nat option" where
  \<comment> \<open>a match of the pattern that starts here: \<open>prev\<close> is the character before this
      position, the string is what follows; the result is the number of characters matched\<close>
  "match_atoms [] prev s = Some 0"
| "match_atoms (Lit c # as) prev [] = None"
| "match_atoms (Lit c # as) prev (x # xs) =
     (if x = c then map_option Suc (match_atoms as (Some x) xs) else None)"
| "match_atoms (Bol # as) prev s = (if prev = None then match_atoms as prev s else None)"
| "match_atoms (WordB # as) prev s =
     (if word_opt prev \<noteq> word_opt (first s) then match_atoms as prev s else None)"

fun finditer :: "atom list \<Rightarrow> char option \<Rightarrow> nat \<Rightarrow> nat \<Rightarrow> string \<Rightarrow> (nat \<times> nat) list" where
  \<comment> \<open>the spans \<open>(start, end)\<close> of the matches, leftmost first and not overlapping;
      \<open>pos\<close> is the index of the position, \<open>skip\<close> the number of characters ahead that
      the last match has taken\<close>
  "finditer atoms prev pos skip [] =
     (if skip = 0 then
        (case match_atoms atoms prev [] of None \<Rightarrow> [] | Some n \<Rightarrow> [(pos, pos + n)])
      else [])"
| "finditer atoms prev pos skip (c # cs) =
     (if 0 < skip then finditer atoms (Some c) (Suc pos) (skip - 1) cs
      else (case match_atoms atoms prev (c # cs) of
              None \<Rightarrow> finditer atoms (Some c) (Suc pos) 0 cs
            | Some n \<Rightarrow> (pos, pos + n) # finditer atoms (Some c) (Suc pos) (n - 1) cs))"

fun splice :: "(string \<Rightarrow> string) \<Rightarrow> string \<Rightarrow> nat \<Rightarrow> (nat \<times> nat) list \<Rightarrow> string" where
  \<comment> \<open>the text between the matches as it is, each match replaced\<close>
  "splice repl s i [] = drop i s"
| "splice repl s i ((a, b) # ms) =
     take (a - i) (drop i s) @ repl (take (b - a) (drop a s)) @ splice repl s b ms"

definition re_sub :: "atom list \<Rightarrow> (string \<Rightarrow> string) \<Rightarrow> string \<Rightarrow> string" where
  "re_sub atoms repl s = splice repl s 0 (finditer atoms None 0 0 s)"

definition blue :: "string \<Rightarrow> string" where
  \<open>blue m = ''<font color="blue">'' @ m @ ''</font>''\<close>

definition keyword_list :: "string list" where
  "keyword_list =
    [''__UXINT'', ''__XINT'', ''__XWORD'', ''BIT'', ''BOOL'', ''BYTE'', ''DATE'', ''DATE_AND_TIME'',
     ''DINT'', ''DT'', ''DWORD'', ''INT'', ''LDATE'', ''LDATE_AND_TIME'', ''LDT'', ''LINT'',
     ''LREAL'', ''LTIME'', ''LTOD'', ''LWORD'', ''REAL'', ''SINT'', ''STRING'', ''TIME'',
     ''TOD'', ''TIME_OF_DAY'', ''UDINT'', ''UINT'', ''ULINT'', ''USINT'', ''WORD'', ''WSTRING'',
     ''FUNCTION_BLOCK'', ''PROGRAM'', ''IMPLEMENTS'', ''INTERFACE'', ''VAR'', ''END_VAR'', ''EXTENDS'',
     ''PROPERTY'', ''TYPE'', ''END_TYPE'', ''STRUCT'', ''END_STRUCT'', ''POINTER'', ''TO'', ''DO'',
     ''FOR'', ''END_FOR'', ''END_IF'', ''IF'', ''AND'', ''AND_THEN'', ''OR_ELSE'', ''ELSE'', ''WHILE'',
     ''REPEAT'', ''UNTIL'', ''CASE'', ''OF'', ''ADR'', ''XOR'', ''VAR_INPUT'', ''VAR_OUTPUT'', ''PERSISTENT'',
     ''RETAIN'', ''AT'', ''ARRAY'', ''OF'', ''METHOD'', ''THIS^'', ''NOT'', ''THEN'', ''ELSIF'',
     ''REFERENCE'', ''REF='', ''PUBLIC'', ''PRIVATE'', ''CONSTANT'', ''VAR_GLOBAL'']"

definition highlight :: "string \<Rightarrow> string" where
  \<comment> \<open>the loop \<open>for keyword in keywords: s = re.sub(..., s)\<close>\<close>
  "highlight s = foldl (\<lambda>acc keyword. re_sub (keyword_pattern keyword) blue acc) s keyword_list"

section \<open>Rendering a line\<close>

text \<open>
  The elements of the document are recorded as the program constructs them: a
  paragraph is its markup text and its style, a spacer its height. What reportlab
  does with a paragraph's markup, and the writing of the file by \<open>doc.build\<close>, are
  not part of the model.
\<close>

datatype style = Normal | TitleStyle | Heading | Subheading | CodeStyle

datatype gap = Gap_5cm | Gap_1cm | Gap_half_cm | Gap_10pt

datatype flowable =
  Spacer gap
| Paragraph string style
| PageBreak
| Table "string list list"

definition replace_char :: "char \<Rightarrow> string \<Rightarrow> string \<Rightarrow> string" where
  \<comment> \<open>\<open>s.replace(c, r)\<close> for a single character \<open>c\<close>\<close>
  "replace_char c r s = concat (map (\<lambda>x. if x = c then r else [x]) s)"

definition escape :: "string \<Rightarrow> string" where
  "escape line =
     replace_char (CHR ''>'') ''&gt;''
       (replace_char (CHR ''<'') ''&lt;'' (replace_char (CHR ''&'') ''&amp;'' line))"

definition render_line :: "string \<Rightarrow> flowable" where
  \<comment> \<open>the body of \<open>for line in code_lines:\<close>\<close>
  \<open>render_line line =
     (let safe_line = escape line
      in if strip safe_line \<noteq> [] then
           (case find_sub ''//'' line of
              Some i \<Rightarrow>
                (let code_part = take i line;
                     comment_part = drop (i + 2) line;
                     full_line = highlight code_part
                                   @ ''<font color="green">//'' @ comment_part @ ''</font>''
                 in Paragraph (strip full_line) CodeStyle)
            | None \<Rightarrow> Paragraph (strip (highlight safe_line)) CodeStyle)
         else Spacer Gap_10pt)\<close>

fun split_lines :: "string \<Rightarrow> string list" where
  \<comment> \<open>\<open>code.split('\n')\<close>\<close>
  "split_lines [] = [[]]"
| "split_lines (c # cs) =
     (if c = CHR 0x0A then [] # split_lines cs
      else (case split_lines cs of l # ls \<Rightarrow> (c # l) # ls | [] \<Rightarrow> [[c]]))"

definition render_segment :: "segment \<Rightarrow> flowable list" where
  \<comment> \<open>the body of \<open>for segment_title, code in code_segments:\<close>\<close>
  "render_segment seg =
     (case seg of (segment_title, code) \<Rightarrow>
        Paragraph segment_title Subheading # map render_line (split_lines code)
          @ [Spacer Gap_half_cm])"

section \<open>Numbering, table of contents and body\<close>

fun str_nat :: "nat \<Rightarrow> string" where
  \<comment> \<open>\<open>str(n)\<close>: the decimal digits of \<open>n\<close>\<close>
  "str_nat n =
     (if n < 10 then [char_of (48 + n)]
      else str_nat (n div 10) @ [char_of (48 + n mod 10)])"

declare str_nat.simps [simp del]

datatype error = TypeError | ValueError

text \<open>
  An entry of a folder's list is the path that \<open>collect_files\<close> stored, or the pair
  \<open>(title, code_segments)\<close> that \<open>main\<close> stored in its place. The folder group is the
  dictionary \<open>code_files_by_folder\<close> in insertion order; its values are lists, so
  \<open>isinstance(subfiles, dict)\<close> is false for each of them and the inner loop over
  \<open>data.items()\<close> in \<open>add_to_toc\<close> and \<open>add_code_files\<close> does nothing.
  Unpacking a path in \<open>for title, _ in files\<close> raises \<open>TypeError\<close>.
\<close>

datatype file_entry = RawPath string | Extracted string "segment list"

type_synonym folder_group = "(string \<times> file_entry list) list"

fun toc_files :: "string \<Rightarrow> nat \<Rightarrow> file_entry list \<Rightarrow> error + string list list" where
  \<comment> \<open>\<open>for title, _ in files:\<close> of \<open>add_to_toc\<close>, the rows it appends\<close>
  "toc_files folder_label file_index [] = Inr []"
| "toc_files folder_label file_index (RawPath p # files) = Inl TypeError"
| "toc_files folder_label file_index (Extracted title segs # files) =
     (case toc_files folder_label (file_index + 1) files of
        Inl e \<Rightarrow> Inl e
      | Inr rows \<Rightarrow>
          Inr ([''    '' @ folder_label @ ''.'' @ str_nat file_index @ '' '' @ title] # rows))"

fun add_to_toc_loop :: "nat \<Rightarrow> folder_group \<Rightarrow> string \<Rightarrow> error + string list list" where
  \<comment> \<open>\<open>for idx, (folder, files) in enumerate(data.items()):\<close> from \<open>idx\<close> on\<close>
  "add_to_toc_loop idx [] prefix = Inr []"
| "add_to_toc_loop idx ((folder, files) # data) prefix =
     (let folder_label = prefix @ str_nat (idx + 1)
      in case toc_files folder_label 1 files of
           Inl e \<Rightarrow> Inl e
         | Inr rows \<Rightarrow>
             (case add_to_toc_loop (idx + 1) data prefix of
                Inl e \<Rightarrow> Inl e
              | Inr more \<Rightarrow> Inr ([folder_label @ '' '' @ folder] # rows @ more)))"

definition add_to_toc :: "folder_group \<Rightarrow> string \<Rightarrow> error + string list list" where
  "add_to_toc data prefix = add_to_toc_loop 0 data prefix"

fun code_files :: "string \<Rightarrow> nat \<Rightarrow> file_entry list \<Rightarrow> error + flowable list" where
  \<comment> \<open>\<open>for title, code_segments in files:\<close> of \<open>add_code_files\<close>\<close>
  "code_files folder_label file_index [] = Inr []"
| "code_files folder_label file_index (RawPath p # files) = Inl TypeError"
| "code_files folder_label file_index (Extracted title code_segments # files) =
     (case code_files folder_label (file_index + 1) files of
        Inl e \<Rightarrow> Inl e
      | Inr more \<Rightarrow>
          Inr (Paragraph (folder_label @ ''.'' @ str_nat file_index @ '' '' @ title) Subheading
                 # concat (map render_segment code_segments) @ more))"

fun add_code_files_loop ::
  "bool \<Rightarrow> nat \<Rightarrow> folder_group \<Rightarrow> string \<Rightarrow> error + flowable list" where
  "add_code_files_loop FirstCycleDone idx [] prefix = Inr []"
| "add_code_files_loop FirstCycleDone idx ((folder, files) # data) prefix =
     (let folder_label = prefix @ str_nat (idx + 1)
      in case code_files folder_label 1 files of
           Inl e \<Rightarrow> Inl e
         | Inr body \<Rightarrow>
             (case add_code_files_loop True (idx + 1) data prefix of
                Inl e \<Rightarrow> Inl e
              | Inr more \<Rightarrow>
                  Inr ((if FirstCycleDone then [PageBreak] else [])
                         @ Paragraph (folder_label @ '' '' @ folder) Heading # body @ more)))"

definition add_code_files :: "folder_group \<Rightarrow> string \<Rightarrow> error + flowable list" where
  "add_code_files data prefix = add_code_files_loop False 0 data prefix"

section \<open>The document\<close>

definition basename :: "string \<Rightarrow> string" where
  "basename p = after_last (CHR ''/'') p"

definition dirname :: "string \<Rightarrow> string" where
  \<comment> \<open>\<open>posixpath.dirname\<close>\<close>
  "dirname p =
     (let head = take (length p - length (basename p)) p
      in if head \<noteq> [] \<and> \<not> list_all (\<lambda>c. c = CHR ''/'') head
         then rev (dropWhile (\<lambda>c. c = CHR ''/'') (rev head))
         else head)"

definition title_page :: "folder_group \<Rightarrow> string \<Rightarrow> flowable list" where
  "title_page code_files_by_folder output_pdf =
     [Spacer Gap_5cm,
      Paragraph ''TwinCAT PLC PDF Auto-Gen'' TitleStyle,
      Spacer Gap_1cm,
      Paragraph (''Generated on: '' @ basename (dirname output_pdf)) Normal,
      Paragraph (''Total files: '' @ str_nat (length code_files_by_folder)) Normal,
      PageBreak]"

definition new_table :: "string list list \<Rightarrow> error + flowable" where
  \<comment> \<open>\<open>Table(data, colWidths=[450])\<close>: reportlab's constructor raises \<open>ValueError\<close>
      for data without a row (its setting \<open>emptyTableAction\<close> is \<open>'error'\<close> unless
      changed, and the program does not change it)\<close>
  "new_table rows = (if rows = [] then Inl ValueError else Inr (Table rows))"

definition generate_pdf :: "folder_group \<Rightarrow> string \<Rightarrow> error + flowable list \<times> string list" where
  \<comment> \<open>the elements handed to \<open>doc.build\<close> and the line printed after it; the result
      is an error where the program's own statements raise, and reportlab's refusal of
      a paragraph's markup or of the destination is not modelled\<close>
  "generate_pdf code_files_by_folder output_pdf =
     (let elements = title_page code_files_by_folder output_pdf
                       @ [Paragraph ''Table of Contents'' Heading, Spacer Gap_half_cm]
      in case add_to_toc code_files_by_folder [] of
           Inl e \<Rightarrow> Inl e
         | Inr toc_data \<Rightarrow>
             (case new_table toc_data of
                Inl e \<Rightarrow> Inl e
              | Inr toc \<Rightarrow>
                  (case add_code_files code_files_by_folder [] of
                     Inl e \<Rightarrow> Inl e
                   | Inr body \<Rightarrow>
                       Inr (elements @ [toc, PageBreak] @ body,
                            [''PDF generated successfully: '' @ output_pdf]))))"

section \<open>Collecting the files and the main program\<close>

text \<open>
  Paths are strings with \<open>/\<close> as the separator, written in the form in which
  \<open>pathlib\<close> prints them: no trailing separator, no doubled separator and no \<open>.\<close>
  component. The result of \<open>os.walk\<close> is an argument: the input folder and the
  directories below it, each with the names of its files; every root is the input
  folder itself or the input folder, a separator and a relative directory. For such
  paths joining is concatenation and \<open>relative_to\<close> drops the input folder and the
  separator after it. Other spellings of the input folder, which \<open>pathlib\<close> would
  normalise, are outside the model.
\<close>

definition suffix_of :: "string \<Rightarrow> string" where
  \<comment> \<open>\<open>Path.suffix\<close>: from the last dot of the name on, unless that dot is the first
      or the last character of the name\<close>
  "suffix_of file_path =
     (let name = basename file_path; ext = after_last (CHR ''.'') name
      in if CHR ''.'' \<in> set name then
           (if ext = [] then [] else if length ext + 1 = length name then [] else CHR ''.'' # ext)
         else [])"

definition is_twincat_file :: "string \<Rightarrow> bool" where
  "is_twincat_file file_path =
     (suffix_of file_path \<in> set [''.TcPOU'', ''.TcDUT'', ''.TcGVL'', ''.TcIO''])"

definition parent_of :: "string \<Rightarrow> string" where
  \<comment> \<open>\<open>Path.parent\<close> of a relative path\<close>
  "parent_of rel =
     (if CHR ''/'' \<in> set rel then take (length rel - length (basename rel) - 1) rel
      else ''.'')"

fun dict_append :: "string \<Rightarrow> string \<Rightarrow> (string \<times> string list) list \<Rightarrow> (string \<times> string list) list" where
  \<comment> \<open>\<open>if k not in d: d[k] = []\<close> and then \<open>d[k].append(v)\<close>\<close>
  "dict_append k v [] = [(k, [v])]"
| "dict_append k v ((k', vs) # d) =
     (if k' = k then (k', vs @ [v]) # d else (k', vs) # dict_append k v d)"

fun collect_dir ::
  "string \<Rightarrow> string \<Rightarrow> string list \<Rightarrow> (string \<times> string list) list \<Rightarrow> (string \<times> string list) list" where
  "collect_dir input_folder root [] files_by_folder = files_by_folder"
| "collect_dir input_folder root (file # files) files_by_folder =
     (let file_path = root @ ''/'' @ file
      in if is_twincat_file file_path then
           (let relative_path = drop (length input_folder + 1) file_path;
                folder_path = parent_of relative_path
            in collect_dir input_folder root files
                 (dict_append folder_path file_path files_by_folder))
         else collect_dir input_folder root files files_by_folder)"

fun collect_walk ::
  "string \<Rightarrow> (string \<times> string list) list \<Rightarrow> (string \<times> string list) list \<Rightarrow> (string \<times> string list) list" where
  "collect_walk input_folder [] files_by_folder = files_by_folder"
| "collect_walk input_folder ((root, files) # walk) files_by_folder =
     collect_walk input_folder walk (collect_dir input_folder root files files_by_folder)"

definition collect_files :: "string \<Rightarrow> (string \<times> string list) list \<Rightarrow> (string \<times> string list) list" where
  "collect_files input_folder walk = collect_walk input_folder walk []"

fun extract_files :: "(string \<Rightarrow> string + element) \<Rightarrow> string list \<Rightarrow> string list \<times> file_entry list" where
  \<comment> \<open>\<open>for i, file_path in enumerate(files):\<close> of \<open>main\<close>: the lines printed and the
      list after the loop\<close>
  "extract_files parse [] = ([], [])"
| "extract_files parse (file_path # files) =
     (case extract_twincat_code file_path (parse file_path) of
        (printed, r) \<Rightarrow>
          (let entry = (case r of
                          None \<Rightarrow> RawPath file_path
                        | Some (title, code_segments) \<Rightarrow>
                            if title \<noteq> [] \<and> code_segments \<noteq> []
                            then Extracted title code_segments
                            else RawPath file_path)
           in case extract_files parse files of
                (printed', entries) \<Rightarrow> (printed @ printed', entry # entries)))"

fun extract_folders ::
  "(string \<Rightarrow> string + element) \<Rightarrow> (string \<times> string list) list \<Rightarrow> string list \<times> folder_group" where
  "extract_folders parse [] = ([], [])"
| "extract_folders parse ((folder, files) # d) =
     (case extract_files parse files of
        (printed, entries) \<Rightarrow>
          (case extract_folders parse d of
             (printed', g) \<Rightarrow> (printed @ printed', (folder, entries) # g)))"

record run =
  console :: "string list"
  exit_status :: nat
  document :: "flowable list option"

definition main ::
  "string list \<Rightarrow> (string \<times> string list) list \<Rightarrow> (string \<Rightarrow> string + element) \<Rightarrow> run" where
  \<comment> \<open>\<open>argv\<close> is \<open>sys.argv\<close>; an exception that nothing catches ends the process with
      status 1 and no document\<close>
  "main argv walk parse =
     (if length argv < 3 then
        \<lparr>console = [''Usage: python twincat_code_extractor.py <input_folder> <output_pdf>''],
         exit_status = 1, document = None\<rparr>
      else
        (let input_folder = argv ! 1;
             output_pdf = argv ! 2;
             code_files_by_folder = collect_files input_folder walk;
             found = ''Found '' @ str_nat (sum_list (map (\<lambda>(folder, files). length files)
                                                       code_files_by_folder))
                       @ '' TwinCAT files''
         in case extract_folders parse code_files_by_folder of
              (printed, data) \<Rightarrow>
                (case generate_pdf data output_pdf of
                   Inl e \<Rightarrow> \<lparr>console = found # printed, exit_status = 1, document = None\<rparr>
                 | Inr (elements, done) \<Rightarrow>
                     \<lparr>console = found # printed @ done, exit_status = 0,
                      document = Some elements\<rparr>)))"

section \<open>What the specification says, for comparison\<close>
















text \<open>
  One numbering of a folder group: every folder with its label, every file of the
  folder with its label. The table of contents and the body are then written from
  the labels of this one list.
\<close>

type_synonym numbering = "(string \<times> string \<times> (string \<times> file_entry) list) list"

definition number_files_from :: "nat \<Rightarrow> string \<Rightarrow> file_entry list \<Rightarrow> (string \<times> file_entry) list" where
  \<comment> \<open>the files of a folder, counted from \<open>j\<close>\<close>
  "number_files_from j folder_label files =
     map (\<lambda>(i, f). (folder_label @ ''.'' @ str_nat i, f)) (zip [j ..< j + length files] files)"

definition section_numbers_from :: "nat \<Rightarrow> string \<Rightarrow> folder_group \<Rightarrow> numbering" where
  \<comment> \<open>the folders, counted from \<open>k\<close>; the files of each folder, counted from 1\<close>
  "section_numbers_from k prefix data =
     map (\<lambda>(i, (folder, files)).
            (prefix @ str_nat i, folder, number_files_from 1 (prefix @ str_nat i) files))
       (zip [k ..< k + length data] data)"

definition section_numbers :: "string \<Rightarrow> folder_group \<Rightarrow> numbering" where
  "section_numbers prefix data = section_numbers_from 1 prefix data"

fun title_of :: "file_entry \<Rightarrow> string" where
  "title_of (Extracted title segs) = title"
| "title_of (RawPath p) = []"

fun segments_of :: "file_entry \<Rightarrow> segment list" where
  "segments_of (Extracted title segs) = segs"
| "segments_of (RawPath p) = []"

fun is_extracted :: "file_entry \<Rightarrow> bool" where
  "is_extracted (Extracted title segs) = True"
| "is_extracted (RawPath p) = False"

definition all_extracted :: "folder_group \<Rightarrow> bool" where
  "all_extracted data = list_all (\<lambda>(folder, files). list_all is_extracted files) data"

definition toc_rows :: "numbering \<Rightarrow> string list list" where
  "toc_rows ns =
     concat (map (\<lambda>(label, folder, fs).
                    [label @ '' '' @ folder]
                      # map (\<lambda>(file_label, f). [''    '' @ file_label @ '' '' @ title_of f]) fs)
               ns)"

definition file_flow :: "string \<times> file_entry \<Rightarrow> flowable list" where
  "file_flow lf =
     (case lf of (file_label, f) \<Rightarrow>
        Paragraph (file_label @ '' '' @ title_of f) Subheading
          # concat (map render_segment (segments_of f)))"

definition folder_flow :: "string \<times> string \<times> (string \<times> file_entry) list \<Rightarrow> flowable list" where
  "folder_flow n =
     (case n of (label, folder, fs) \<Rightarrow>
        Paragraph (label @ '' '' @ folder) Heading # concat (map file_flow fs))"

fun body_flow :: "numbering \<Rightarrow> flowable list" where
  \<comment> \<open>a page break between two folders\<close>
  "body_flow [] = []"
| "body_flow [n] = folder_flow n"
| "body_flow (n # ns) = folder_flow n @ PageBreak # body_flow ns"

text \<open>Word boundaries of a string, by index.\<close>

definition char_at :: "string \<Rightarrow> nat \<Rightarrow> char option" where
  "char_at s i = (if i < length s then Some (s ! i) else None)"

definition char_before :: "string \<Rightarrow> nat \<Rightarrow> char option" where
  "char_before s i = (if i = 0 then None else char_at s (i - 1))"

definition boundary :: "string \<Rightarrow> nat \<Rightarrow> bool" where
  "boundary s i = (word_opt (char_before s i) \<noteq> word_opt (char_at s i))"

section \<open>The order of the extracted segments\<close>

lemma append_segment_payload:
  "append_segment label node segs =
     segs @ filter (\<lambda>seg. snd seg \<noteq> []) [(label, payload node)]"
  by (simp add: append_segment_def payload_def extract_cdata_def
           split: option.splits)

lemma methods_loop_candidates:
  "methods_loop ms segs =
     segs @ filter (\<lambda>seg. snd seg \<noteq> []) (concat (map method_candidates ms))"
  by (induction ms arbitrary: segs)
     (simp_all add: Let_def append_segment_payload method_candidates_def)

lemma accessor_candidates_eq:
  "accessor n kind acc segs =
     segs @ filter (\<lambda>seg. snd seg \<noteq> []) (accessor_candidates n kind acc)"
  by (cases acc) (simp_all add: accessor_def accessor_candidates_def Let_def append_segment_payload)

lemma properties_loop_candidates:
  "properties_loop ps segs =
     segs @ filter (\<lambda>seg. snd seg \<noteq> []) (concat (map property_candidates ps))"
  by (induction ps arbitrary: segs)
     (simp_all add: Let_def append_segment_payload accessor_candidates_eq property_candidates_def)

lemma collect_segments_closed:
  "collect_segments root = filter (\<lambda>seg. snd seg \<noteq> []) (loop_candidates root)"
  by (simp add: collect_segments_def loop_candidates_def Let_def append_segment_payload
        methods_loop_candidates properties_loop_candidates)



















section \<open>The main declaration is the first declaration of the document\<close>

text \<open>
  C10, as it holds. \<open>root.find(".//Declaration")\<close> returns the first \<open>Declaration\<close>
  element of the whole document. When that element is the \<open>Declaration\<close> child of a
  method and its trimmed payload is not empty, the text is emitted as the unit's
  \<open>Declaration\<close> segment and, later in the list, as the declaration segment of the
  method.
\<close>

theorem first_declaration_emitted_twice:
  assumes m: "m \<in> set (findall_desc root ''Method'')"
    and same: "find_desc root ''Declaration'' = find_child m ''Declaration''"
    and nonempty: "payload (find_child m ''Declaration'') \<noteq> []"
  shows "\<exists>mid post.
           collect_segments root =
             (''Declaration'', payload (find_child m ''Declaration'')) # mid
               @ (''Method '' @ attrib_get m ''Name'' ''Unknown'' @ '' Declaration'',
                  payload (find_child m ''Declaration'')) # post"
proof -
  let ?ne = "\<lambda>seg :: segment. snd seg \<noteq> []"
  let ?p = "payload (find_child m ''Declaration'')"
  let ?impl = "(''Implementation'', payload (find_desc_path root ''Implementation'' ''ST''))"
  let ?mimpl = "(''Method '' @ attrib_get m ''Name'' ''Unknown'' @ '' Implementation'',
                 payload (find_child_path m ''Implementation'' ''ST''))"
  from m obtain ms1 ms2 where ms: "findall_desc root ''Method'' = ms1 @ m # ms2"
    by (auto dest: split_list)
  have "collect_segments root =
          (''Declaration'', ?p)
            # filter ?ne (?impl # concat (map method_candidates ms1))
            @ (''Method '' @ attrib_get m ''Name'' ''Unknown'' @ '' Declaration'', ?p)
            # filter ?ne (?mimpl # concat (map method_candidates ms2)
                 @ concat (map property_candidates (findall_desc root ''Property'')))"
    using nonempty
    by (simp add: collect_segments_closed loop_candidates_def ms same
          method_candidates_def Let_def)
  then show ?thesis by blast
qed

text \<open>The theorem at a unit whose only declaration is that of its method.\<close>

theorem first_declaration_emitted_twice_witness:
  "Element ''Method'' [(''Name'', ''M'')] None [Element ''Declaration'' [] (Some ''METHOD M'') []]
     \<in> set (findall_desc
              (Element ''POU'' [(''Name'', ''U'')] None
                 [Element ''Method'' [(''Name'', ''M'')] None
                    [Element ''Declaration'' [] (Some ''METHOD M'') []]]) ''Method'')
   \<and> (\<exists>mid post.
         collect_segments
           (Element ''POU'' [(''Name'', ''U'')] None
              [Element ''Method'' [(''Name'', ''M'')] None
                 [Element ''Declaration'' [] (Some ''METHOD M'') []]])
         = (''Declaration'', ''METHOD M'') # mid @ (''Method M Declaration'', ''METHOD M'') # post)"
proof -
  let ?d = "Element ''Declaration'' [] (Some ''METHOD M'') []"
  let ?m = "Element ''Method'' [(''Name'', ''M'')] None [?d]"
  let ?u = "Element ''POU'' [(''Name'', ''U'')] None [?m]"
  have h1: "?m \<in> set (findall_desc ?u ''Method'')" by code_simp
  have h2: "find_desc ?u ''Declaration'' = find_child ?m ''Declaration''" by code_simp
  have p: "payload (find_child ?m ''Declaration'') = ''METHOD M''" by code_simp
  have h3: "payload (find_child ?m ''Declaration'') \<noteq> []" unfolding p by simp
  have n: "attrib_get ?m ''Name'' ''Unknown'' = ''M''" by code_simp
  from first_declaration_emitted_twice [OF h1 h2 h3] h1
  show ?thesis unfolding p n by simp
qed

text \<open>
  C10 as stated fails. The first unit has no top-level \<open>Declaration\<close> and a method
  with one, but a property's declaration comes first in the document: the method's
  text \<open>m\<close> is emitted once, and the main segment holds \<open>p\<close>. The second unit has a
  method whose declaration is blank: nothing is emitted.
\<close>

theorem method_declaration_counterexample:
  "find_child
     (Element ''POU'' [(''Name'', ''U'')] None
        [Element ''Property'' [(''Name'', ''P'')] None
           [Element ''Declaration'' [] (Some ''p'') []],
         Element ''Method'' [(''Name'', ''M'')] None
           [Element ''Declaration'' [] (Some ''m'') []]]) ''Declaration'' = None
   \<and> collect_segments
     (Element ''POU'' [(''Name'', ''U'')] None
        [Element ''Property'' [(''Name'', ''P'')] None
           [Element ''Declaration'' [] (Some ''p'') []],
         Element ''Method'' [(''Name'', ''M'')] None
           [Element ''Declaration'' [] (Some ''m'') []]])
     = [(''Declaration'', ''p''), (''Method M Declaration'', ''m''),
        (''Property P Declaration'', ''p'')]
   \<and> collect_segments
     (Element ''POU'' [(''Name'', ''U'')] None
        [Element ''Method'' [(''Name'', ''M'')] None
           [Element ''Declaration'' [] (Some '' '') []]]) = []"
  by code_simp

section \<open>Files that yield no result\<close>

lemma toc_files_raw:
  "RawPath p \<in> set files \<Longrightarrow> toc_files folder_label file_index files = Inl TypeError"
proof (induction files arbitrary: file_index)
  case Nil
  then show ?case by simp
next
  case (Cons f files)
  then show ?case by (cases f) (auto split: sum.splits)
qed

lemma toc_files_error: "toc_files folder_label file_index files = Inl e \<Longrightarrow> e = TypeError"
proof (induction files arbitrary: file_index)
  case Nil
  then show ?case by simp
next
  case (Cons f files)
  then show ?case by (cases f) (auto split: sum.splits)
qed

lemma add_to_toc_loop_raw:
  "(folder, files) \<in> set data \<Longrightarrow> RawPath p \<in> set files \<Longrightarrow>
   add_to_toc_loop idx data prefix = Inl TypeError"
proof (induction data arbitrary: idx)
  case Nil
  then show ?case by simp
next
  case (Cons d data)
  obtain folder' files' where d: "d = (folder', files')" by (cases d)
  show ?case
  proof (cases "toc_files (prefix @ str_nat (idx + 1)) 1 files'")
    case (Inl e)
    then show ?thesis using toc_files_error [OF Inl] by (simp add: d Let_def)
  next
    case (Inr rows)
    with Cons.prems have "(folder, files) \<in> set data"
      using toc_files_raw [of p files' "prefix @ str_nat (idx + 1)" 1] by (auto simp: d)
    from Cons.IH [OF this Cons.prems(2)] Inr show ?thesis
      by (simp add: d Let_def)
  qed
qed

lemma generate_pdf_raw:
  "(folder, files) \<in> set data \<Longrightarrow> RawPath p \<in> set files \<Longrightarrow>
   generate_pdf data output_pdf = Inl TypeError"
  by (simp add: generate_pdf_def add_to_toc_def add_to_toc_loop_raw)

lemma extract_files_keeps_raw:
  "file_path \<in> set files \<Longrightarrow> parse file_path = Inr root \<Longrightarrow> collect_segments root = [] \<Longrightarrow>
   RawPath file_path \<in> set (snd (extract_files parse files))"
  by (induction files) (auto simp: extract_twincat_code_def split: prod.splits sum.splits option.splits)

lemma extract_folders_entries:
  "(folder, files) \<in> set d \<Longrightarrow>
   (folder, snd (extract_files parse files)) \<in> set (snd (extract_folders parse d))"
  by (induction d) (auto split: prod.splits)

text \<open>
  C9. A file that parses and yields an empty segment list stays in its folder's list
  as the path: \<open>title and code_segments\<close> is false for the empty list. The
  rendering then raises \<open>TypeError\<close> where it unpacks the entry, and the run ends
  with status 1 and without a document.
\<close>

theorem empty_segment_list_aborts_run:
  assumes argv: "3 \<le> length argv"
    and folder: "(folder, files) \<in> set (collect_files (argv ! 1) walk)"
    and member: "file_path \<in> set files"
    and parsed: "parse file_path = Inr root"
    and empty: "collect_segments root = []"
  shows "(\<exists>entries. (folder, entries) \<in> set (snd (extract_folders parse (collect_files (argv ! 1) walk)))
            \<and> RawPath file_path \<in> set entries)
         \<and> generate_pdf (snd (extract_folders parse (collect_files (argv ! 1) walk))) (argv ! 2)
             = Inl TypeError
         \<and> exit_status (main argv walk parse) = 1
         \<and> document (main argv walk parse) = None"
proof -
  let ?data = "snd (extract_folders parse (collect_files (argv ! 1) walk))"
  let ?entries = "snd (extract_files parse files)"
  have raw: "RawPath file_path \<in> set ?entries"
    using member parsed empty by (rule extract_files_keeps_raw)
  have entry: "(folder, ?entries) \<in> set ?data"
    using folder by (rule extract_folders_entries)
  have gen: "generate_pdf ?data (argv ! 2) = Inl TypeError"
    using entry raw by (rule generate_pdf_raw)
  obtain printed data
    where ef: "extract_folders parse (collect_files (argv ! 1) walk) = (printed, data)"
    by (cases "extract_folders parse (collect_files (argv ! 1) walk)")
  with gen have "generate_pdf data (argv ! 2) = Inl TypeError" by simp
  with argv ef
  have "exit_status (main argv walk parse) = 1 \<and> document (main argv walk parse) = None"
    by (simp add: main_def Let_def)
  with raw entry gen show ?thesis by blast
qed

text \<open>The theorem at a program unit without any block.\<close>

theorem empty_segment_list_aborts_run_witness:
  "exit_status
     (main [''TwinCAT_To_PDF.py'', ''in'', ''out/report.pdf''] [(''in'', [''A.TcPOU''])]
        (\<lambda>p. Inr (Element ''POU'' [(''Name'', ''A'')] None []))) = 1
   \<and> document
     (main [''TwinCAT_To_PDF.py'', ''in'', ''out/report.pdf''] [(''in'', [''A.TcPOU''])]
        (\<lambda>p. Inr (Element ''POU'' [(''Name'', ''A'')] None []))) = None"
proof -
  let ?argv = "[''TwinCAT_To_PDF.py'', ''in'', ''out/report.pdf'']"
  let ?walk = "[(''in'', [''A.TcPOU''])]"
  let ?root = "Element ''POU'' [(''Name'', ''A'')] None []"
  let ?parse = "\<lambda>p :: string. (Inr ?root :: string + element)"
  have h1: "3 \<le> length ?argv" by simp
  have c: "collect_files (?argv ! 1) ?walk = [(''.'', [''in/A.TcPOU''])]" by code_simp
  have h2: "(''.'', [''in/A.TcPOU'']) \<in> set (collect_files (?argv ! 1) ?walk)"
    unfolding c by simp
  have h3: "''in/A.TcPOU'' \<in> set [''in/A.TcPOU'']" by simp
  have h4: "?parse ''in/A.TcPOU'' = Inr ?root" by simp
  have h5: "collect_segments ?root = []" by code_simp
  from empty_segment_list_aborts_run [OF h1 h2 h3 h4 h5]
  show ?thesis by blast
qed

text \<open>
  C1 says that a file whose extraction fails is skipped and the run completes. The
  program reports the file and then leaves its path in the list, as for C9: with one
  file that does not parse and one that does, the run ends with status 1 and without
  a document.
\<close>

theorem failed_extraction_aborts_run:
  "main [''TwinCAT_To_PDF.py'', ''in'', ''out/report.pdf'']
     [(''in'', [''A.TcPOU'', ''B.TcPOU''])]
     (\<lambda>p. if p = ''in/A.TcPOU'' then Inl ''syntax error: line 1, column 0''
          else Inr (Element ''POU'' [(''Name'', ''B'')] None
                      [Element ''Declaration'' [] (Some ''PROGRAM B'') []]))
   = \<lparr>console = [''Found 2 TwinCAT files'',
                 ''Error processing in/A.TcPOU: syntax error: line 1, column 0''],
      exit_status = 1, document = None\<rparr>"
  by code_simp

section \<open>The title page and the empty input\<close>

text \<open>
  C6 says that the title page counts the files of the report. The page prints
  \<open>len(code_files_by_folder)\<close>, the number of folders: for one folder with two files
  it reads \<open>Total files: 1\<close>.
\<close>

theorem title_page_counts_folders:
  "title_page
     [(''POUs'', [Extracted ''POU: A '' [(''Declaration'', ''PROGRAM A'')],
                  Extracted ''POU: B '' [(''Declaration'', ''PROGRAM B'')]])]
     ''out/report.pdf''
   = [Spacer Gap_5cm,
      Paragraph ''TwinCAT PLC PDF Auto-Gen'' TitleStyle,
      Spacer Gap_1cm,
      Paragraph ''Generated on: out'' Normal,
      Paragraph ''Total files: 1'' Normal,
      PageBreak]"
  by code_simp

text \<open>
  C8 says that an input directory without any matching file gives a document with a
  title page and an empty table of contents, and status zero. The table of contents
  is built from no rows, which the constructor of the table refuses: the run prints
  the count of zero files and ends with status 1 and without a document.
\<close>

theorem empty_directory_aborts_run:
  "main [''TwinCAT_To_PDF.py'', ''in'', ''out/report.pdf''] [(''in'', [''notes.txt''])] parse
   = \<lparr>console = [''Found 0 TwinCAT files''], exit_status = 1, document = None\<rparr>
   \<and> generate_pdf [] ''out/report.pdf'' = Inl ValueError"
  by code_simp

section \<open>One numbering for the table of contents and the body\<close>

lemma zip_upt_Cons: "zip [j ..< j + Suc n] (x # xs) = (j, x) # zip [Suc j ..< Suc j + n] xs"
  by (simp add: upt_conv_Cons del: upt_Suc)

lemma number_files_from_Cons:
  "number_files_from j l (f # files) = (l @ ''.'' @ str_nat j, f) # number_files_from (Suc j) l files"
  by (simp add: number_files_from_def upt_conv_Cons del: upt_Suc)

lemma section_numbers_from_Cons:
  "section_numbers_from k prefix ((folder, files) # data) =
     (prefix @ str_nat k, folder, number_files_from 1 (prefix @ str_nat k) files)
       # section_numbers_from (Suc k) prefix data"
  by (simp add: section_numbers_from_def upt_conv_Cons del: upt_Suc)

lemma toc_files_numbered:
  "list_all is_extracted files \<Longrightarrow>
   toc_files l j files =
     Inr (map (\<lambda>(file_label, f). [''    '' @ file_label @ '' '' @ title_of f])
            (number_files_from j l files))"
proof (induction files arbitrary: j)
  case Nil
  then show ?case by (simp add: number_files_from_def)
next
  case (Cons f files)
  then show ?case by (cases f) (simp_all add: number_files_from_Cons)
qed

lemma code_files_numbered:
  "list_all is_extracted files \<Longrightarrow>
   code_files l j files = Inr (concat (map file_flow (number_files_from j l files)))"
proof (induction files arbitrary: j)
  case Nil
  then show ?case by (simp add: number_files_from_def)
next
  case (Cons f files)
  then show ?case by (cases f) (simp_all add: number_files_from_Cons file_flow_def)
qed

lemma add_to_toc_loop_numbered:
  "all_extracted data \<Longrightarrow>
   add_to_toc_loop idx data prefix = Inr (toc_rows (section_numbers_from (Suc idx) prefix data))"
proof (induction data arbitrary: idx)
  case Nil
  then show ?case by (simp add: toc_rows_def section_numbers_from_def)
next
  case (Cons d data)
  obtain folder files where d: "d = (folder, files)" by (cases d)
  from Cons.prems have ex: "list_all is_extracted files" and rest: "all_extracted data"
    by (simp_all add: all_extracted_def d)
  have "toc_rows (section_numbers_from (Suc idx) prefix (d # data)) =
          [prefix @ str_nat (Suc idx) @ '' '' @ folder]
            # map (\<lambda>(file_label, f). [''    '' @ file_label @ '' '' @ title_of f])
                (number_files_from 1 (prefix @ str_nat (Suc idx)) files)
            @ toc_rows (section_numbers_from (Suc (Suc idx)) prefix data)"
    by (simp add: d section_numbers_from_Cons toc_rows_def)
  then show ?case
    using Cons.IH [OF rest, of "Suc idx"] toc_files_numbered [OF ex]
    by (simp add: d Let_def)
qed

lemma body_flow_Cons:
  "body_flow (n # ns) = folder_flow n @ (if ns = [] then [] else PageBreak # body_flow ns)"
  by (cases ns) simp_all

lemma add_code_files_loop_numbered:
  "all_extracted data \<Longrightarrow>
   add_code_files_loop flag idx data prefix =
     Inr ((if flag \<and> data \<noteq> [] then [PageBreak] else [])
            @ body_flow (section_numbers_from (Suc idx) prefix data))"
proof (induction data arbitrary: idx flag)
  case Nil
  then show ?case by (simp add: section_numbers_from_def)
next
  case (Cons d data)
  obtain folder files where d: "d = (folder, files)" by (cases d)
  from Cons.prems have ex: "list_all is_extracted files" and rest: "all_extracted data"
    by (simp_all add: all_extracted_def d)
  have empty: "section_numbers_from k prefix data = [] \<longleftrightarrow> data = []" for k
    by (auto simp add: section_numbers_from_def)
  show ?case
    using Cons.IH [OF rest, of True "Suc idx"] code_files_numbered [OF ex]
    by (simp add: d Let_def section_numbers_from_Cons body_flow_Cons folder_flow_def empty
          section_numbers_from_def [of _ _ "[]"])
qed

text \<open>
  C2. For a folder group whose files are all extracted, the rows of the table of
  contents and the headings of the body are written from one and the same list of
  labels: a folder's row and its heading are the same string, label and folder name;
  a file's heading is its label and title, and its row is that string after four
  spaces. So the label of every folder and of every file is the same string,
  character for character, in both places.
\<close>

theorem toc_and_body_in_lockstep:
  assumes "all_extracted data"
  shows "add_to_toc data prefix = Inr (toc_rows (section_numbers prefix data))
         \<and> add_code_files data prefix = Inr (body_flow (section_numbers prefix data))"
  using assms
  by (simp add: add_to_toc_def add_code_files_def section_numbers_def
        add_to_toc_loop_numbered add_code_files_loop_numbered)

text \<open>The theorem at the two folders of the specification's example.\<close>

theorem toc_and_body_in_lockstep_witness:
  "all_extracted
     [(''POUs'', [Extracted ''POU: MAIN '' [(''Implementation'', ''x'')]]),
      (''POUs/Sub'', [Extracted ''DUT: Point3D'' [(''Declaration'', ''y'')]])]
   \<and> add_to_toc
       [(''POUs'', [Extracted ''POU: MAIN '' [(''Implementation'', ''x'')]]),
        (''POUs/Sub'', [Extracted ''DUT: Point3D'' [(''Declaration'', ''y'')]])] []
     = Inr [[''1 POUs''], [''    1.1 POU: MAIN ''], [''2 POUs/Sub''], [''    2.1 DUT: Point3D'']]
   \<and> add_code_files
       [(''POUs'', [Extracted ''POU: MAIN '' [(''Implementation'', ''x'')]]),
        (''POUs/Sub'', [Extracted ''DUT: Point3D'' [(''Declaration'', ''y'')]])] []
     = Inr [Paragraph ''1 POUs'' Heading,
            Paragraph ''1.1 POU: MAIN '' Subheading,
            Paragraph ''Implementation'' Subheading,
            Paragraph ''x'' CodeStyle,
            Spacer Gap_half_cm,
            PageBreak,
            Paragraph ''2 POUs/Sub'' Heading,
            Paragraph ''2.1 DUT: Point3D'' Subheading,
            Paragraph ''Declaration'' Subheading,
            Paragraph ''y'' CodeStyle,
            Spacer Gap_half_cm]"
proof -
  let ?d = "[(''POUs'', [Extracted ''POU: MAIN '' [(''Implementation'', ''x'')]]),
             (''POUs/Sub'', [Extracted ''DUT: Point3D'' [(''Declaration'', ''y'')]])]"
  have h: "all_extracted ?d" by code_simp
  have t: "toc_rows (section_numbers [] ?d) =
             [[''1 POUs''], [''    1.1 POU: MAIN ''], [''2 POUs/Sub''], [''    2.1 DUT: Point3D'']]"
    by code_simp
  have b: "body_flow (section_numbers [] ?d) =
             [Paragraph ''1 POUs'' Heading,
              Paragraph ''1.1 POU: MAIN '' Subheading,
              Paragraph ''Implementation'' Subheading,
              Paragraph ''x'' CodeStyle,
              Spacer Gap_half_cm,
              PageBreak,
              Paragraph ''2 POUs/Sub'' Heading,
              Paragraph ''2.1 DUT: Point3D'' Subheading,
              Paragraph ''Declaration'' Subheading,
              Paragraph ''y'' CodeStyle,
              Spacer Gap_half_cm]"
    by code_simp
  from toc_and_body_in_lockstep [OF h, of "[]"] h show ?thesis
    by (simp only: t b simp_thms)
qed






section \<open>Keywords are matched as whole words\<close>

lemma first_drop: "first (drop i s) = char_at s i"
  by (simp add: first_def char_at_def Cons_nth_drop_Suc [symmetric] split: list.splits)

lemma match_literals:
  "match_atoms (map Lit kw @ [WordB]) prev rest = Some n \<Longrightarrow>
   n = length kw \<and> take n rest = kw \<and> n \<le> length rest
   \<and> word_opt (if kw = [] then prev else Some (last kw)) \<noteq> word_opt (first (drop n rest))"
proof (induction kw arbitrary: prev rest n)
  case Nil
  then show ?case by (simp split: if_splits)
next
  case (Cons c kw)
  show ?case
  proof (cases rest)
    case Nil
    with Cons.prems show ?thesis by simp
  next
    case (Cons x xs)
    with Cons.prems obtain n' where x: "x = c" and n: "n = Suc n'"
      and m: "match_atoms (map Lit kw @ [WordB]) (Some x) xs = Some n'"
      by (auto split: if_splits)
    from Cons.IH [OF m] show ?thesis by (auto simp: Cons x n)
  qed
qed

lemma match_keyword:
  assumes "CHR ''^'' \<notin> set kw"
    and "match_atoms (keyword_pattern kw) prev rest = Some n"
  shows "n = length kw \<and> take n rest = kw \<and> n \<le> length rest
         \<and> word_opt prev \<noteq> word_opt (first rest)
         \<and> word_opt (if kw = [] then prev else Some (last kw)) \<noteq> word_opt (first (drop n rest))"
proof -
  from assms(1) have p: "keyword_pattern kw = WordB # map Lit kw @ [WordB]"
    by (auto simp: keyword_pattern_def)
  from assms(2) have b: "word_opt prev \<noteq> word_opt (first rest)"
    and m: "match_atoms (map Lit kw @ [WordB]) prev rest = Some n"
    by (simp_all add: p split: if_splits)
  from match_literals [OF m] b show ?thesis by blast
qed

lemma match_this_caret: "match_atoms (keyword_pattern ''THIS^'') prev rest = None"
proof -
  have lit: "match_atoms (Lit c # as) p r =
               (case r of [] \<Rightarrow> None
                | x # xs \<Rightarrow> if x = c then map_option Suc (match_atoms as (Some x) xs) else None)"
    for c as p r
    by (cases r) simp_all
  show ?thesis
    by (simp add: keyword_pattern_def lit split: list.splits)
qed

lemma finditer_spans:
  "(a, b) \<in> set (finditer atoms prev pos skip rest) \<Longrightarrow>
   \<exists>k n. k \<le> length rest \<and> a = pos + k \<and> b = a + n
     \<and> match_atoms atoms (if k = 0 then prev else Some (rest ! (k - 1))) (drop k rest) = Some n"
proof (induction rest arbitrary: prev pos skip)
  case Nil
  show ?case
  proof (cases "match_atoms atoms prev []")
    case None
    then have "finditer atoms prev pos skip [] = []" by simp
    with Nil.prems show ?thesis by (simp only: list.set empty_iff)
  next
    case (Some n)
    show ?thesis
    proof (cases "skip = 0")
      case True
      with Some have "finditer atoms prev pos skip [] = [(pos, pos + n)]" by simp
      with Nil.prems have "(a, b) \<in> set [(pos, pos + n)]" by (simp only:)
      then have "a = pos" and "b = pos + n" by simp_all
      with Some show ?thesis by simp
    next
      case False
      then have "finditer atoms prev pos skip [] = []" by simp
      with Nil.prems show ?thesis by (simp only: list.set empty_iff)
    qed
  qed
next
  case (Cons c cs)
  have step: "\<exists>k n. k \<le> length (c # cs) \<and> a = pos + k \<and> b = a + n
       \<and> match_atoms atoms (if k = 0 then prev else Some ((c # cs) ! (k - 1))) (drop k (c # cs)) = Some n"
    if "(a, b) \<in> set (finditer atoms (Some c) (Suc pos) sk cs)" for sk
  proof -
    from Cons.IH [OF that] obtain k n where k: "k \<le> length cs" "a = Suc pos + k" "b = a + n"
      "match_atoms atoms (if k = 0 then Some c else Some (cs ! (k - 1))) (drop k cs) = Some n"
      by blast
    have "(if k = 0 then Some c else Some (cs ! (k - 1))) = Some ((c # cs) ! k)"
      by (cases k) simp_all
    with k show ?thesis
      by (intro exI [of _ "Suc k"] exI [of _ n]) simp
  qed
  show ?case
  proof (cases "0 < skip")
    case True
    then have "finditer atoms prev pos skip (c # cs) =
                 finditer atoms (Some c) (Suc pos) (skip - 1) cs"
      by simp
    with Cons.prems have "(a, b) \<in> set (finditer atoms (Some c) (Suc pos) (skip - 1) cs)"
      by (simp only:)
    then show ?thesis by (rule step)
  next
    case False
    show ?thesis
    proof (cases "match_atoms atoms prev (c # cs)")
      case None
      with False have "finditer atoms prev pos skip (c # cs) =
                         finditer atoms (Some c) (Suc pos) 0 cs"
        by simp
      with Cons.prems have "(a, b) \<in> set (finditer atoms (Some c) (Suc pos) 0 cs)"
        by (simp only:)
      then show ?thesis by (rule step)
    next
      case (Some n)
      with False have "finditer atoms prev pos skip (c # cs) =
                         (pos, pos + n) # finditer atoms (Some c) (Suc pos) (n - 1) cs"
        by simp
      with Cons.prems
      have "(a, b) \<in> set ((pos, pos + n) # finditer atoms (Some c) (Suc pos) (n - 1) cs)"
        by (simp only:)
      then consider "a = pos" "b = pos + n"
        | "(a, b) \<in> set (finditer atoms (Some c) (Suc pos) (n - 1) cs)"
        by auto
      then show ?thesis
      proof cases
        case 1
        with Some show ?thesis by (intro exI [of _ 0] exI [of _ n]) simp
      next
        case 2
        then show ?thesis by (rule step)
      qed
    qed
  qed
qed

lemma keyword_list_caret:
  "kw \<in> set keyword_list \<Longrightarrow> kw = ''THIS^'' \<or> CHR ''^'' \<notin> set kw"
proof -
  have "list_all (\<lambda>kw. kw = ''THIS^'' \<or> CHR ''^'' \<notin> set kw) keyword_list"
    by code_simp
  then show "kw \<in> set keyword_list \<Longrightarrow> kw = ''THIS^'' \<or> CHR ''^'' \<notin> set kw"
    by (simp add: list_all_iff)
qed

lemma keyword_span:
  assumes kw: "kw \<in> set keyword_list"
    and span: "(a, b) \<in> set (finditer (keyword_pattern kw) None 0 0 s)"
  shows "b = a + length kw \<and> take (length kw) (drop a s) = kw \<and> boundary s a \<and> boundary s b"
proof -
  from finditer_spans [OF span] obtain n where a: "a \<le> length s" and b: "b = a + n"
    and m: "match_atoms (keyword_pattern kw) (if a = 0 then None else Some (s ! (a - 1))) (drop a s)
              = Some n"
    by auto
  have before: "(if a = 0 then None else Some (s ! (a - 1))) = char_before s a"
    using a by (auto simp: char_before_def char_at_def)
  from m match_this_caret keyword_list_caret [OF kw] have caret: "CHR ''^'' \<notin> set kw"
    by auto
  from m have m': "match_atoms (keyword_pattern kw) (char_before s a) (drop a s) = Some n"
    by (simp only: before)
  note mk = match_keyword [OF caret m']
  from mk have n: "n = length kw" by blast
  from mk have t: "take n (drop a s) = kw" by blast
  from mk have le: "n \<le> length (drop a s)" by blast
  from mk have "word_opt (char_before s a) \<noteq> word_opt (first (drop a s))" by blast
  then have b1: "word_opt (char_before s a) \<noteq> word_opt (char_at s a)"
    by (simp add: first_drop)
  from mk have "word_opt (if kw = [] then char_before s a else Some (last kw))
                  \<noteq> word_opt (first (drop n (drop a s)))" by blast
  then have b2: "word_opt (if kw = [] then char_before s a else Some (last kw))
                  \<noteq> word_opt (char_at s (a + n))"
    by (simp add: first_drop add.commute)
  have "char_before s (a + n) = (if kw = [] then char_before s a else Some (last kw))"
  proof (cases "kw = []")
    case True
    with n show ?thesis by simp
  next
    case False
    with n have pos: "0 < n" by simp
    from le a have "a + n \<le> length s" by simp
    with pos have "char_before s (a + n) = Some (s ! (a + n - 1))"
      by (simp add: char_before_def char_at_def)
    also have "s ! (a + n - 1) = drop a s ! (n - 1)"
      using pos a by simp
    also have "\<dots> = take n (drop a s) ! (n - 1)"
      using pos by simp
    also have "\<dots> = kw ! (n - 1)"
      by (simp only: t)
    also have "\<dots> = last kw"
      using False n by (simp add: last_conv_nth)
    finally show ?thesis using False by simp
  qed
  with b2 have b3: "boundary s (a + n)" by (simp add: boundary_def)
  from b1 have b4: "boundary s a" by (simp add: boundary_def)
  have "take (length kw) (drop a s) = kw" using t unfolding n .
  with b3 b4 b n show ?thesis by blast
qed

text \<open>
  C7. \<open>re.sub\<close> replaces the spans that \<open>finditer\<close> returns. For every keyword of the
  list and every string, each of these spans is an occurrence of the keyword with a
  word boundary at its start and at its end. In particular no span of \<open>INTERFACE\<close>
  starts where the string reads \<open>INTERFACE2\<close>.
\<close>

theorem keywords_match_whole_words_only:
  "(\<forall>kw\<in>set keyword_list. \<forall>(a, b)\<in>set (finditer (keyword_pattern kw) None 0 0 s).
      b = a + length kw \<and> take (length kw) (drop a s) = kw \<and> boundary s a \<and> boundary s b)
   \<and> (\<forall>a b. take 10 (drop a s) = ''INTERFACE2'' \<longrightarrow>
          (a, b) \<notin> set (finditer (keyword_pattern ''INTERFACE'') None 0 0 s))"
proof (intro conjI ballI allI impI)
  fix kw x
  assume "kw \<in> set keyword_list" and "x \<in> set (finditer (keyword_pattern kw) None 0 0 s)"
  then show "case x of (a, b) \<Rightarrow>
               b = a + length kw \<and> take (length kw) (drop a s) = kw \<and> boundary s a \<and> boundary s b"
    by (cases x) (simp add: keyword_span)
next
  fix a b
  assume occ: "take 10 (drop a s) = ''INTERFACE2''"
  show "(a, b) \<notin> set (finditer (keyword_pattern ''INTERFACE'') None 0 0 s)"
  proof
    assume span: "(a, b) \<in> set (finditer (keyword_pattern ''INTERFACE'') None 0 0 s)"
    have kw: "''INTERFACE'' \<in> set keyword_list" by (simp add: keyword_list_def)
    from keyword_span [OF kw span] have "b = a + length ''INTERFACE''" and bd: "boundary s b"
      by blast+
    then have b: "b = a + 9" by simp
    have "length (take 10 (drop a s)) = 10" by (simp only: occ) simp
    then have len: "a + 10 \<le> length s" by simp
    have "s ! (a + 8) = take 10 (drop a s) ! 8" using len by simp
    also have "\<dots> = CHR ''E''" by (simp only: occ) simp
    finally have e: "char_before s b = Some (CHR ''E'')"
      using len by (simp add: b char_before_def char_at_def ac_simps)
    have "s ! (a + 9) = take 10 (drop a s) ! 9" using len by simp
    also have "\<dots> = CHR ''2''" by (simp only: occ) simp
    finally have two: "char_at s b = Some (CHR ''2'')"
      using len by (simp add: b char_at_def ac_simps)
    have "is_word (CHR ''E'')" and "is_word (CHR ''2'')" by code_simp+
    with bd e two show False by (simp add: boundary_def word_opt_def)
  qed
qed

text \<open>
  The theorem at a string with both forms: only the second is a span. The line of the
  specification's example is rendered without any marker.
\<close>

theorem keywords_match_whole_words_only_witness:
  "''INTERFACE'' \<in> set keyword_list
   \<and> finditer (keyword_pattern ''INTERFACE'') None 0 0 ''INTERFACE2 INTERFACE'' = [(11, 20)]
   \<and> boundary ''INTERFACE2 INTERFACE'' 11
   \<and> boundary ''INTERFACE2 INTERFACE'' 20
   \<and> (0, 9) \<notin> set (finditer (keyword_pattern ''INTERFACE'') None 0 0 ''INTERFACE2 INTERFACE'')
   \<and> render_line ''x : INTERFACE2;'' = Paragraph ''x : INTERFACE2;'' CodeStyle"
proof -
  let ?s = "''INTERFACE2 INTERFACE''"
  have kw: "''INTERFACE'' \<in> set keyword_list" by (simp add: keyword_list_def)
  have f: "finditer (keyword_pattern ''INTERFACE'') None 0 0 ?s = [(11, 20)]" by code_simp
  have occ: "take 10 (drop 0 ?s) = ''INTERFACE2''" by simp
  have r: "render_line ''x : INTERFACE2;'' = Paragraph ''x : INTERFACE2;'' CodeStyle"
    by code_simp
  note w = keywords_match_whole_words_only [of ?s]
  from w have "\<forall>kw\<in>set keyword_list. \<forall>(a, b)\<in>set (finditer (keyword_pattern kw) None 0 0 ?s).
                 b = a + length kw \<and> take (length kw) (drop a ?s) = kw
                 \<and> boundary ?s a \<and> boundary ?s b"
    by (rule conjunct1)
  then have "\<forall>(a, b)\<in>set (finditer (keyword_pattern ''INTERFACE'') None 0 0 ?s).
               b = a + length ''INTERFACE'' \<and> take (length ''INTERFACE'') (drop a ?s) = ''INTERFACE''
               \<and> boundary ?s a \<and> boundary ?s b"
    using kw by (rule bspec)
  then have bd: "boundary ?s 11 \<and> boundary ?s 20" by (simp only: f) simp
  from w have "\<forall>a b. take 10 (drop a ?s) = ''INTERFACE2'' \<longrightarrow>
                 (a, b) \<notin> set (finditer (keyword_pattern ''INTERFACE'') None 0 0 ?s)"
    by (rule conjunct2)
  with occ have "(0, 9) \<notin> set (finditer (keyword_pattern ''INTERFACE'') None 0 0 ?s)"
    by blast
  with kw f bd r show ?thesis by blast
qed

section \<open>Escaping and comments\<close>

text \<open>
  C4 says that the escaped line is what is split at the comment introducer. The
  comment branch splits and highlights \<open>line\<close>, not \<open>safe_line\<close>: the \<open><\<close> of a line
  with a comment reaches the paragraph as it is, and the \<open><\<close> of the same code without
  the comment is escaped.
\<close>

theorem comment_line_not_escaped:
  \<open>render_line ''a < b // c'' = Paragraph ''a < b <font color="green">// c</font>'' CodeStyle
   \<and> render_line ''a < b'' = Paragraph ''a &lt; b'' CodeStyle\<close>
  by code_simp

end
